theory Spec2Isabelle
  imports Main "HOL-Library.Sublist"
begin

section \<open>JavaScript values and string primitives used by the adapter\<close>

text \<open>
  The adapter \<^verbatim>\<open>src/adapter/socket/memcache.js\<close> keeps its receive buffer as a JavaScript
  string and frames replies with \<^verbatim>\<open>indexOf\<close>, \<^verbatim>\<open>substr\<close>, \<^verbatim>\<open>substring\<close>, \<^verbatim>\<open>split\<close> and
  \<^verbatim>\<open>parseInt\<close>. A string is modelled as a \<^typ>\<open>string\<close>, one \<^typ>\<open>char\<close> per code unit
  (code units above 255 are outside the model). Numbers are integers, with \<open>NaN\<close> as a
  value of its own: every number the adapter computes is a sum of string lengths, of
  positions and of the integer \<^verbatim>\<open>parseInt\<close> reads, so binary64 rounding only matters beyond
  \<open>2 ^ 53\<close>, where each comparison with a buffer length gives the same answer.
\<close>

datatype jsnum = Num int | NaN

fun plus_num :: "jsnum \<Rightarrow> jsnum \<Rightarrow> jsnum" where
  "plus_num (Num a) (Num b) = Num (a + b)"
| "plus_num _ _ = NaN"

fun gt_num :: "jsnum \<Rightarrow> int \<Rightarrow> bool" where
  "gt_num (Num a) n = (a > n)"
| "gt_num NaN n = False"

text \<open>The result of \<^verbatim>\<open>ToIntegerOrInfinity\<close>, which \<^verbatim>\<open>substr\<close> applies to its length argument.\<close>

datatype jsint = Fin int | PosInf | NegInf

definition CRLF :: string where
  "CRLF = [CHR 0x0D, CHR 0x0A]"

definition CRLF_LENGTH :: int where
  "CRLF_LENGTH = int (length CRLF)"

definition ERRORS :: "string list" where
  "ERRORS = [''ERROR'', ''NOT_FOUND'', ''CLIENT_ERROR'', ''SERVER_ERROR'']"

text \<open>\<^verbatim>\<open>s.indexOf(p)\<close>: the first position at which \<open>p\<close> occurs in \<open>s\<close>, or \<open>-1\<close>.\<close>

fun find_sub :: "string \<Rightarrow> string \<Rightarrow> nat option" where
  "find_sub p [] = (if p = [] then Some 0 else None)"
| "find_sub p (c # cs) =
     (if prefix p (c # cs) then Some 0 else map_option Suc (find_sub p cs))"

definition indexOf :: "string \<Rightarrow> string \<Rightarrow> int" where
  "indexOf s p = (case find_sub p s of None \<Rightarrow> - 1 | Some i \<Rightarrow> int i)"

text \<open>
  \<^verbatim>\<open>s.substr(start, length)\<close>, \<open>None\<close> for an omitted or undefined length: a negative start
  counts from the end, the length is clamped to \<open>[0, size]\<close>, the end to \<open>size\<close>.
\<close>

definition substr :: "string \<Rightarrow> int \<Rightarrow> jsint option \<Rightarrow> string" where
  "substr s start len =
     (let size = int (length s);
          intStart = (if start < 0 then max (size + start) 0 else min start size);
          intLength = (case len of
                         None \<Rightarrow> size
                       | Some PosInf \<Rightarrow> size
                       | Some NegInf \<Rightarrow> 0
                       | Some (Fin l) \<Rightarrow> min (max l 0) size);
          intEnd = min (intStart + intLength) size
      in if intStart \<ge> intEnd then []
         else take (nat (intEnd - intStart)) (drop (nat intStart) s))"

text \<open>\<^verbatim>\<open>s.substring(pos)\<close>: \<open>NaN\<close> and negative positions count as 0.\<close>

fun substring :: "string \<Rightarrow> jsnum \<Rightarrow> string" where
  "substring s NaN = s"
| "substring s (Num i) = drop (nat (min (max i 0) (int (length s)))) s"

text \<open>\<^verbatim>\<open>s.split(' ')\<close> and the element read at an index (\<open>None\<close> is \<^verbatim>\<open>undefined\<close>).\<close>

primrec splitOn :: "char \<Rightarrow> string \<Rightarrow> string list" where
  "splitOn d [] = [[]]"
| "splitOn d (c # cs) =
     (if c = d then [] # splitOn d cs
      else (case splitOn d cs of [] \<Rightarrow> [[c]] | x # xs \<Rightarrow> (c # x) # xs))"

definition nth_opt :: "'a list \<Rightarrow> nat \<Rightarrow> 'a option" where
  "nth_opt xs i = (if i < length xs then Some (xs ! i) else None)"

subsection \<open>Reading numbers from strings\<close>

text \<open>White space of \<^verbatim>\<open>StrWhiteSpaceChar\<close> among the code units below 256.\<close>

definition isWhiteSpace :: "char \<Rightarrow> bool" where
  "isWhiteSpace c =
     (c = CHR 0x09 \<or> c = CHR 0x0A \<or> c = CHR 0x0B \<or> c = CHR 0x0C \<or> c = CHR 0x0D
      \<or> c = CHR 0x20 \<or> c = CHR 0xA0)"

definition digitValue :: "char \<Rightarrow> nat option" where
  "digitValue c =
     (let n = (of_char c :: nat) in
      if 48 \<le> n \<and> n \<le> 57 then Some (n - 48)
      else if 97 \<le> n \<and> n \<le> 102 then Some (n - 87)
      else if 65 \<le> n \<and> n \<le> 70 then Some (n - 55)
      else None)"

text \<open>The values of the longest prefix of digits of radix \<open>R\<close>, and the number they denote.\<close>

fun radixDigits :: "nat \<Rightarrow> string \<Rightarrow> nat list" where
  "radixDigits R [] = []"
| "radixDigits R (c # cs) =
     (case digitValue c of
        None \<Rightarrow> []
      | Some d \<Rightarrow> if d < R then d # radixDigits R cs else [])"

definition digitsToNat :: "nat \<Rightarrow> nat list \<Rightarrow> nat" where
  "digitsToNat R ds = foldl (\<lambda>a d. a * R + d) 0 ds"

text \<open>
  \<^verbatim>\<open>parseInt(string)\<close> and \<^verbatim>\<open>parseInt(string, 10)\<close>: leading white space is skipped, a sign
  is read, without a radix a \<^verbatim>\<open>0x\<close> prefix selects radix 16, and the longest prefix of
  digits is the result; \<open>NaN\<close> when there is no digit.
\<close>

definition parseIntRadix :: "bool \<Rightarrow> string \<Rightarrow> jsnum" where
  "parseIntRadix stripPrefix inputString =
     (let S = dropWhile isWhiteSpace inputString;
          sign = (if take 1 S = ''-'' then - 1 else 1 :: int);
          S1 = (if take 1 S = ''+'' \<or> take 1 S = ''-'' then drop 1 S else S);
          hex = (stripPrefix \<and> (take 2 S1 = ''0x'' \<or> take 2 S1 = ''0X''));
          R = (if hex then 16 else 10);
          Z = radixDigits R (if hex then drop 2 S1 else S1)
      in if Z = [] then NaN else Num (sign * int (digitsToNat R Z)))"

definition parseInt :: "string option \<Rightarrow> jsnum" where
  "parseInt v = (case v of None \<Rightarrow> NaN | Some s \<Rightarrow> parseIntRadix True s)"

text \<open>
  \<^verbatim>\<open>Number.prototype.toString\<close> on an integer: its decimal digits, with a minus sign
  (exponent notation only starts at \<open>10 ^ 21\<close>, beyond any buffer length).
\<close>

fun digitsOf :: "nat \<Rightarrow> string" where
  "digitsOf n =
     (if n < 10 then [char_of (48 + n)]
      else digitsOf (n div 10) @ [char_of (48 + n mod 10)])"

declare digitsOf.simps [simp del]

definition toString :: "int \<Rightarrow> string" where
  "toString i = (if i < 0 then CHR ''-'' # digitsOf (nat (- i)) else digitsOf (nat i))"

definition parseInt10 :: "int \<Rightarrow> jsnum" where
  "parseInt10 n = parseIntRadix False (toString n)"

text \<open>
  \<^verbatim>\<open>ToIntegerOrInfinity(ToNumber(string))\<close>, which \<^verbatim>\<open>substr\<close> applies to a length given as a
  string: white space is trimmed on both sides, the empty string is 0, a \<^verbatim>\<open>0x\<close>, \<^verbatim>\<open>0o\<close> or
  \<^verbatim>\<open>0b\<close> literal is read in its radix, a signed decimal literal with optional fraction and
  exponent is truncated towards zero, \<^verbatim>\<open>Infinity\<close> is infinite, and every other string is
  \<open>NaN\<close>, which counts as 0. The decimal value is computed exactly; binary64 rounds a literal
  of more than 15 significant digits first, which can move a value lying just below an
  integer up to it.
\<close>

definition trimWS :: "string \<Rightarrow> string" where
  "trimWS s = rev (dropWhile isWhiteSpace (rev (dropWhile isWhiteSpace s)))"

definition isDigitIn :: "nat \<Rightarrow> char \<Rightarrow> bool" where
  "isDigitIn R c = (case digitValue c of None \<Rightarrow> False | Some d \<Rightarrow> d < R)"

definition nonDecimal :: "nat \<Rightarrow> string \<Rightarrow> jsint" where
  "nonDecimal R body =
     (if body \<noteq> [] \<and> list_all (isDigitIn R) body
      then Fin (int (digitsToNat R (radixDigits R body))) else Fin 0)"

definition strDecimal :: "string \<Rightarrow> int option" where
  "strDecimal u =
     (let mant = takeWhile (\<lambda>c. c \<noteq> CHR ''e'' \<and> c \<noteq> CHR ''E'') u;
          ex = dropWhile (\<lambda>c. c \<noteq> CHR ''e'' \<and> c \<noteq> CHR ''E'') u;
          ip = takeWhile (isDigitIn 10) mant;
          r = dropWhile (isDigitIn 10) mant;
          fp = drop 1 r;
          mantOk = ((r = [] \<and> ip \<noteq> [])
                    \<or> (take 1 r = ''.'' \<and> list_all (isDigitIn 10) fp \<and> (ip \<noteq> [] \<or> fp \<noteq> [])));
          es = drop 1 ex;
          ed = (if take 1 es = ''+'' \<or> take 1 es = ''-'' then drop 1 es else es);
          expOk = (ex = [] \<or> (ed \<noteq> [] \<and> list_all (isDigitIn 10) ed));
          m = int (digitsToNat 10 (radixDigits 10 (ip @ fp)));
          e = (if take 1 es = ''-'' then - 1 else 1) * int (digitsToNat 10 (radixDigits 10 ed));
          k = e - int (length fp)
      in if mantOk \<and> expOk
         then Some (if k \<ge> 0 then m * 10 ^ nat k else m div 10 ^ nat (- k))
         else None)"

definition toIntegerOrInfinity :: "string \<Rightarrow> jsint" where
  "toIntegerOrInfinity s =
     (let t = trimWS s; pre = take 2 t; body = drop 2 t;
          neg = (take 1 t = ''-'');
          u = (if take 1 t = ''+'' \<or> take 1 t = ''-'' then drop 1 t else t)
      in if t = [] then Fin 0
         else if pre = ''0x'' \<or> pre = ''0X'' then nonDecimal 16 body
         else if pre = ''0o'' \<or> pre = ''0O'' then nonDecimal 8 body
         else if pre = ''0b'' \<or> pre = ''0B'' then nonDecimal 2 body
         else if u = ''Infinity'' then (if neg then NegInf else PosInf)
         else (case strDecimal u of
                 None \<Rightarrow> Fin 0
               | Some v \<Rightarrow> Fin (if neg then - v else v)))"

section \<open>The connection and its pending requests\<close>

text \<open>
  A queue entry is \<^verbatim>\<open>{type: type, callback: callback}\<close>. The type selects the handler by
  name (\<^verbatim>\<open>this['handle' + ucfirst]\<close>): \<^verbatim>\<open>get\<close>, \<^verbatim>\<open>simple\<close> and \<^verbatim>\<open>version\<close> are the types
  the class's own methods pass, \<^verbatim>\<open>error\<close> names \<^verbatim>\<open>handleError\<close>; \<open>None\<close> is a missing
  (falsy) type. The case of the letters does not matter to the lookup. Any other string
  names no handler, the call throws, and such a type is outside the model. The callback is the closure \<^verbatim>\<open>query\<close> creates around its deferred; it is
  identified by a number. \<^verbatim>\<open>query\<close> is the only place that pushes an entry and always
  sets both fields, so the guard \<^verbatim>\<open>callback && callback.callback\<close> holds for every entry
  taken from the queue.
\<close>

datatype reply_type = Get | Simple | Version | Error

record pending =
  type :: "reply_type option"
  callback :: nat

text \<open>
  What a caller observes. The closure is
  \<^verbatim>\<open>(error, value) => error ? deferred.reject(error) : deferred.resolve(value)\<close>:
  an empty error string is falsy and resolves. A value is a string or \<^verbatim>\<open>null\<close> (\<open>None\<close>).
\<close>

datatype outcome = Resolved "string option" | Rejected string

datatype effect =
    Settled nat outcome
  | Emitted string
  | CreateConnection nat "string option"
  | Written string

fun call_callback :: "pending \<Rightarrow> string option \<Rightarrow> string option \<Rightarrow> effect" where
  "call_callback cb (Some e) v = Settled (callback cb) (if e \<noteq> [] then Rejected e else Resolved v)"
| "call_callback cb None v = Settled (callback cb) (Resolved v)"

text \<open>
  The transport handle is the socket \<^verbatim>\<open>net.createConnection\<close> returned, kept with the
  arguments it was opened with. \<open>host\<close> is the property \<^verbatim>\<open>this.host\<close> that \<^verbatim>\<open>connect\<close>
  reads: no method assigns it, so it is \<^verbatim>\<open>undefined\<close> (\<open>None\<close>) on every instance.
\<close>

record socket =
  sock_port :: nat
  sock_host :: "string option"

record connection =
  port :: nat
  hostname :: string
  host :: "string option"
  buffer :: string
  callbacks :: "pending list"
  handle :: "socket option"

text \<open>\<^verbatim>\<open>init(port, hostname)\<close>: \<open>None\<close> is an omitted argument; 0 and the empty string are falsy.\<close>

definition init :: "nat option \<Rightarrow> string option \<Rightarrow> connection" where
  "init port' hostname' =
     \<lparr> port = (case port' of None \<Rightarrow> 11211 | Some p \<Rightarrow> if p = 0 then 11211 else p),
       hostname = (case hostname' of None \<Rightarrow> ''127.0.0.1''
                   | Some h \<Rightarrow> if h = [] then ''127.0.0.1'' else h),
       host = None,
       buffer = [],
       callbacks = [],
       handle = None \<rparr>"

text \<open>\<^verbatim>\<open>connect()\<close>: returns at once when a handle exists, otherwise opens the transport.\<close>

definition connect :: "connection \<Rightarrow> connection \<times> effect list" where
  "connect this =
     (case handle this of
        Some h \<Rightarrow> (this, [])
      | None \<Rightarrow>
          (this\<lparr>handle := Some \<lparr>sock_port = port this, sock_host = host this\<rparr>\<rparr>,
           [CreateConnection (port this) (host this)]))"

section \<open>The frame parser\<close>

text \<open>
  A handler returns the array \<^verbatim>\<open>[value, pos, error]\<close>; \<^verbatim>\<open>handleGet\<close> returns two elements,
  so its third is \<^verbatim>\<open>undefined\<close> (\<open>None\<close>, as \<^verbatim>\<open>null\<close>).
\<close>

type_synonym result = "string option \<times> jsnum \<times> string option"

definition readLine :: "string \<Rightarrow> string" where
  "readLine string =
     (let pos = indexOf string CRLF
      in if pos > - 1 then substr string 0 (Some (Fin pos)) else string)"

definition handleError :: "string \<Rightarrow> result" where
  "handleError buffer' =
     (let line = readLine buffer'
      in (None, Num (int (length line) + CRLF_LENGTH), Some line))"

definition handleGet :: "string \<Rightarrow> result" where
  "handleGet buffer' =
     (let end' = 3 in
      if indexOf buffer' ''END'' = 0 then (None, Num (end' + CRLF_LENGTH), None)
      else if indexOf buffer' ''VALUE'' = 0 \<and> indexOf buffer' ''END'' > - 1 then
        (let firstPos = indexOf buffer' CRLF + CRLF_LENGTH;
             endPos = indexOf buffer' ''END'';
             resultLen = endPos - firstPos - CRLF_LENGTH;
             value = substr buffer' firstPos (Some (Fin resultLen))
         in (Some value,
             plus_num (plus_num (plus_num (plus_num (Num firstPos) (parseInt10 resultLen))
               (Num CRLF_LENGTH)) (Num end')) (Num CRLF_LENGTH),
             None))
      else
        (let firstPos = indexOf buffer' CRLF + CRLF_LENGTH;
             resultLen = nth_opt (splitOn CHR '' '' (substr buffer' 0 (Some (Fin firstPos)))) 3;
             value = substr buffer' firstPos (map_option toIntegerOrInfinity resultLen)
         in (Some value,
             plus_num (plus_num (plus_num (plus_num (Num firstPos) (parseInt resultLen))
               (Num CRLF_LENGTH)) (Num end')) (Num CRLF_LENGTH),
             None)))"

definition handleSimple :: "string \<Rightarrow> result" where
  "handleSimple buffer' =
     (let line = readLine buffer'
      in (Some line, Num (int (length line) + CRLF_LENGTH), None))"

definition handleVersion :: "string \<Rightarrow> result" where
  "handleVersion buffer' =
     (let pos = indexOf buffer' CRLF;
          value = substr buffer' 8 (Some (Fin (pos - 8)))
      in (Some value, Num (pos + CRLF_LENGTH), None))"

text \<open>The loop over \<^verbatim>\<open>ERRORS\<close> in \<^verbatim>\<open>getHandleResult\<close>: true when some item occurs in the buffer.\<close>

fun scanErrors :: "string \<Rightarrow> string list \<Rightarrow> bool" where
  "scanErrors buffer' [] = False"
| "scanErrors buffer' (item # items) =
     (if indexOf buffer' item > - 1 then True else scanErrors buffer' items)"

fun dispatch :: "reply_type \<Rightarrow> string \<Rightarrow> result" where
  "dispatch Get buffer' = handleGet buffer'"
| "dispatch Simple buffer' = handleSimple buffer'"
| "dispatch Version buffer' = handleVersion buffer'"
| "dispatch Error buffer' = handleError buffer'"

text \<open>\<^verbatim>\<open>getHandleResult(buffer)\<close>; \<open>None\<close> is the result \<^verbatim>\<open>false\<close>.\<close>

definition getHandleResult :: "connection \<Rightarrow> string \<Rightarrow> result option" where
  "getHandleResult this buffer' =
     (if indexOf buffer' CRLF = - 1 then None
      else if scanErrors buffer' ERRORS then Some (handleError buffer')
      else (case callbacks this of
              [] \<Rightarrow> None
            | callback' # _ \<Rightarrow>
                (case type callback' of
                   None \<Rightarrow> None
                 | Some t \<Rightarrow> Some (dispatch t buffer'))))"

section \<open>The data loop and the transport events\<close>

text \<open>
  One pass through the body of the \<^verbatim>\<open>while\<close> loop of \<^verbatim>\<open>handleData\<close>: \<open>None\<close> is \<^verbatim>\<open>break\<close>,
  otherwise the connection after the pass and the callback it fired, if the queue had an
  entry (\<^verbatim>\<open>shift\<close> on an empty array gives \<^verbatim>\<open>undefined\<close> and fires nothing).
\<close>

definition handleData_body :: "connection \<Rightarrow> (connection \<times> effect list) option" where
  "handleData_body this =
     (case getHandleResult this (buffer this) of
        None \<Rightarrow> None
      | Some (value, pos, error) \<Rightarrow>
          if gt_num pos (int (length (buffer this))) then None
          else Some (this\<lparr>buffer := substring (buffer this) pos,
                          callbacks := tl (callbacks this)\<rparr>,
                     (case callbacks this of
                        [] \<Rightarrow> []
                      | callback' # _ \<Rightarrow> [call_callback callback' error value])))"

text \<open>
  \<^verbatim>\<open>handleData()\<close>: the loop itself, with the effects fired so far. Nothing in the
  definition presupposes that the loop ends: not returning is the value \<open>None\<close>.
\<close>

partial_function (option) handleData ::
  "connection \<Rightarrow> effect list \<Rightarrow> (connection \<times> effect list) option" where
  "handleData this fired =
     (if length (buffer this) > 0 then
        (case handleData_body this of
           None \<Rightarrow> Some (this, fired)
         | Some (this', fired') \<Rightarrow> handleData this' (fired @ fired'))
      else Some (this, fired))"

declare handleData.simps [code]

text \<open>The \<^verbatim>\<open>data\<close> event: append the chunk to the buffer, then parse.\<close>

definition on_data :: "connection \<Rightarrow> string \<Rightarrow> (connection \<times> effect list) option" where
  "on_data this data = handleData (this\<lparr>buffer := buffer this @ data\<rparr>) []"

text \<open>The loop of the \<^verbatim>\<open>end\<close> and \<^verbatim>\<open>error\<close> events: shift every entry and call it with \<open>e\<close>.\<close>

fun drain :: "string \<Rightarrow> pending list \<Rightarrow> effect list" where
  "drain e [] = []"
| "drain e (callback' # rest) = call_callback callback' (Some e) None # drain e rest"

definition on_end :: "connection \<Rightarrow> connection \<times> effect list" where
  "on_end this =
     (this\<lparr>callbacks := [], handle := None\<rparr>, drain ''CONNECTION_CLOSED'' (callbacks this))"

definition on_close :: "connection \<Rightarrow> connection \<times> effect list" where
  "on_close this = (this\<lparr>handle := None\<rparr>, [Emitted ''close''])"

definition on_timeout :: "connection \<Rightarrow> connection \<times> effect list" where
  "on_timeout this =
     (case callbacks this of
        [] \<Rightarrow> (this, [Emitted ''timeout''])
      | callback' # rest \<Rightarrow>
          (this\<lparr>callbacks := rest\<rparr>,
           [call_callback callback' (Some ''TIMEOUT'') None, Emitted ''timeout'']))"

definition on_error :: "connection \<Rightarrow> connection \<times> effect list" where
  "on_error this =
     (this\<lparr>callbacks := [], handle := None\<rparr>,
      drain ''ERROR'' (callbacks this) @ [Emitted ''clienterror''])"


section \<open>Replies as the protocol frames them\<close>

text \<open>
  The replies of the wire protocol, used to state what the parser does with a stream of
  them: a status line, \<^verbatim>\<open>VERSION <string>\<close>, the miss \<^verbatim>\<open>END\<close>, and a hit, which is a header
  line \<^verbatim>\<open>VALUE <key> <flags> <bytes>\<close>, the payload, and the trailer \<^verbatim>\<open>END\<close>.
\<close>

datatype frame = Status string | VersionReply string | Miss | Hit string string

fun encode :: "frame \<Rightarrow> string" where
  "encode (Status line) = line @ CRLF"
| "encode (VersionReply v) = ''VERSION '' @ v @ CRLF"
| "encode Miss = ''END'' @ CRLF"
| "encode (Hit header payload) = header @ CRLF @ payload @ CRLF @ ''END'' @ CRLF"

text \<open>The type of the request a reply answers, and the value the caller is to receive.\<close>

fun shape :: "frame \<Rightarrow> reply_type" where
  "shape (Status line) = Simple"
| "shape (VersionReply v) = Version"
| "shape Miss = Get"
| "shape (Hit header payload) = Get"

fun frame_value :: "frame \<Rightarrow> string option" where
  "frame_value (Status line) = Some line"
| "frame_value (VersionReply v) = Some v"
| "frame_value Miss = None"
| "frame_value (Hit header payload) = Some payload"

text \<open>
  A well-formed reply: a line holds no terminator; the header of a hit starts with
  \<^verbatim>\<open>VALUE\<close>, its fourth field declares the length of the payload, and the text \<^verbatim>\<open>END\<close>
  occurs neither in the header nor in the payload. The payload may hold terminators.
\<close>

fun wf_frame :: "frame \<Rightarrow> bool" where
  "wf_frame (Status line) = (indexOf line CRLF = - 1)"
| "wf_frame (VersionReply v) = (indexOf v CRLF = - 1)"
| "wf_frame Miss = True"
| "wf_frame (Hit header payload) =
     (indexOf header ''VALUE'' = 0 \<and> indexOf header CRLF = - 1
      \<and> indexOf (header @ CRLF @ payload) ''END'' = - 1
      \<and> parseInt (nth_opt (splitOn CHR '' '' (header @ CRLF)) 3) = Num (int (length payload)))"





section \<open>Occurrences and positions\<close>

lemma find_sub_None_iff: "find_sub p s = None \<longleftrightarrow> \<not> sublist p s"
  by (induction s) (auto simp: sublist_Cons_right)

lemma find_sub_Some_prefix: "find_sub p s = Some i \<Longrightarrow> i \<le> length s \<and> prefix p (drop i s)"
  by (induction s arbitrary: i) (auto split: if_splits)

lemma find_sub_zero_iff: "find_sub p s = Some 0 \<longleftrightarrow> prefix p s"
  by (cases s) auto

lemma find_sub_append_first:
  "p \<noteq> [] \<Longrightarrow> \<not> sublist p (a @ butlast p) \<Longrightarrow> find_sub p (a @ p @ r) = Some (length a)"
proof (induction a)
  case Nil
  then show ?case by (simp add: find_sub_zero_iff)
next
  case (Cons x a)
  have "\<not> prefix p (x # a @ p @ r)"
  proof
    assume pre: "prefix p (x # a @ p @ r)"
    have split: "x # a @ p @ r = ((x # a) @ butlast p) @ (last p # r)"
      using Cons.prems(1) by simp
    have "length p \<le> length ((x # a) @ butlast p)" by simp
    moreover have "prefix ((x # a) @ butlast p) (x # a @ p @ r)"
      unfolding split by (rule prefixI) simp
    ultimately have "prefix p ((x # a) @ butlast p)"
      using pre prefix_length_prefix by blast
    then show False using Cons.prems(2) by auto
  qed
  moreover have "\<not> sublist p (a @ butlast p)"
    using Cons.prems(2) by (simp add: sublist_Cons_right)
  ultimately show ?case using Cons by simp
qed

lemma sublist_snoc_fresh:
  "sublist p (u @ t) \<Longrightarrow> p \<noteq> [] \<Longrightarrow> last p \<notin> set t \<Longrightarrow> sublist p u"
proof (induction t rule: rev_induct)
  case Nil
  then show ?case by simp
next
  case (snoc x t)
  from snoc.prems(1) have "suffix p ((u @ t) @ [x]) \<or> sublist p (u @ t)"
    by (simp only: sublist_snoc append_assoc[symmetric])
  moreover have "\<not> suffix p ((u @ t) @ [x])"
  proof
    assume "suffix p ((u @ t) @ [x])"
    then obtain q where "(u @ t) @ [x] = q @ p" by (auto simp: suffix_def)
    with snoc.prems(2) have "last p = x"
      by (metis last_appendR last_snoc)
    with snoc.prems(3) show False by simp
  qed
  ultimately show ?case using snoc by simp
qed

lemma sublist_cons_fresh:
  "sublist p (a @ b) \<Longrightarrow> p \<noteq> [] \<Longrightarrow> hd p \<notin> set a \<Longrightarrow> sublist p b"
proof (induction a)
  case Nil
  then show ?case by simp
next
  case (Cons x a)
  have "\<not> prefix p (x # a @ b)"
    using Cons.prems(2,3) by (cases p) auto
  with Cons show ?case by (simp add: sublist_Cons_right)
qed

lemma indexOf_minus1_iff: "indexOf s p = - 1 \<longleftrightarrow> \<not> sublist p s"
  by (simp add: indexOf_def find_sub_None_iff[symmetric] split: option.splits)


lemma indexOf_zero_iff: "indexOf s p = 0 \<longleftrightarrow> prefix p s"
  by (simp add: indexOf_def find_sub_zero_iff[symmetric] split: option.splits)

lemma indexOf_first:
  "p \<noteq> [] \<Longrightarrow> \<not> sublist p (a @ butlast p) \<Longrightarrow> indexOf (a @ p @ r) p = int (length a)"
  by (simp add: indexOf_def find_sub_append_first)



lemma substr_take_drop:
  "0 \<le> start \<Longrightarrow> 0 \<le> l \<Longrightarrow> substr s start (Some (Fin l)) = take (nat l) (drop (nat start) s)"
proof -
  assume a: "0 \<le> start" "0 \<le> l"
  obtain m n where mn: "start = int m" "l = int n"
    using a by (metis nat_0_le)
  show ?thesis
    unfolding mn by (auto simp: substr_def Let_def min_def max_def nat_add_distrib)
qed

lemma substring_append: "substring (a @ r) (Num (int (length a))) = r"
  by simp

section \<open>Decimal digits are read back\<close>

lemma radixDigits_append:
  "list_all (isDigitIn R) xs \<Longrightarrow> radixDigits R (xs @ ys) = radixDigits R xs @ radixDigits R ys"
  by (induction xs) (auto simp: isDigitIn_def split: option.splits)

lemma digitValue_digit: "n < 10 \<Longrightarrow> digitValue (char_of (48 + n)) = Some n"
  by (simp add: digitValue_def Let_def)

lemma digitsOf_all_digits: "list_all (isDigitIn 10) (digitsOf n)"
proof (induction n rule: digitsOf.induct)
  case (1 n)
  show ?case
  proof (cases "n < 10")
    case True
    then show ?thesis by (subst digitsOf.simps) (simp add: isDigitIn_def digitValue_digit)
  next
    case False
    with 1 have "list_all (isDigitIn 10) (digitsOf (n div 10))" by simp
    moreover have "isDigitIn 10 (char_of (48 + n mod 10))"
      by (simp add: isDigitIn_def digitValue_digit)
    ultimately show ?thesis
      using False by (subst digitsOf.simps) simp
  qed
qed

lemma digitsOf_value: "digitsToNat 10 (radixDigits 10 (digitsOf n)) = n"
proof (induction n rule: digitsOf.induct)
  case (1 n)
  show ?case
  proof (cases "n < 10")
    case True
    then show ?thesis
      by (subst digitsOf.simps) (simp add: digitsToNat_def digitValue_digit)
  next
    case False
    with 1 have "digitsToNat 10 (radixDigits 10 (digitsOf (n div 10))) = n div 10" by simp
    with False show ?thesis
      by (subst digitsOf.simps)
         (simp add: radixDigits_append digitsOf_all_digits digitsToNat_def digitValue_digit)
  qed
qed

lemma digitsOf_nonempty: "digitsOf n \<noteq> []"
  by (subst digitsOf.simps) simp

lemma digitsOf_hd: "isDigitIn 10 (hd (digitsOf n))"
  using digitsOf_all_digits[of n] digitsOf_nonempty[of n] by (cases "digitsOf n") simp_all

lemma digit_not_special:
  "isDigitIn 10 c \<Longrightarrow> \<not> isWhiteSpace c \<and> c \<noteq> CHR ''-'' \<and> c \<noteq> CHR ''+''"
  by (auto simp: isDigitIn_def digitValue_def isWhiteSpace_def Let_def split: if_splits)

lemma parseInt10_nat: "parseInt10 (int n) = Num (int n)"
proof -
  obtain c cs where d: "digitsOf n = c # cs"
    using digitsOf_nonempty[of n] by (cases "digitsOf n") auto
  have c: "\<not> isWhiteSpace c" "c \<noteq> CHR ''-''" "c \<noteq> CHR ''+''"
    using digitsOf_hd[of n] digit_not_special[of c] by (simp_all add: d)
  have "radixDigits 10 (c # cs) \<noteq> []"
    using digitsOf_all_digits[of n] by (simp add: d isDigitIn_def split: option.splits)
  moreover have "digitsToNat 10 (radixDigits 10 (c # cs)) = n"
    using digitsOf_value[of n] by (simp add: d)
  ultimately show ?thesis
    using c by (simp add: parseInt10_def parseIntRadix_def toString_def d Let_def)
qed

section \<open>The handlers on well-formed replies\<close>

lemma CRLF_first:
  assumes "\<not> sublist CRLF l"
  shows "indexOf (l @ CRLF @ r) CRLF = int (length l)"
proof -
  have "\<not> sublist CRLF (l @ butlast CRLF)"
    using assms sublist_snoc_fresh[of CRLF l "butlast CRLF"] by (auto simp: CRLF_def)
  then show ?thesis by (intro indexOf_first) (simp_all add: CRLF_def)
qed

lemma readLine_first: "\<not> sublist CRLF l \<Longrightarrow> readLine (l @ CRLF @ r) = l"
  by (simp add: readLine_def CRLF_first substr_take_drop)

lemma CRLF_length: "length CRLF = 2" "CRLF_LENGTH = 2"
  by (simp_all add: CRLF_def CRLF_LENGTH_def)

lemma handleSimple_line:
  "\<not> sublist CRLF l \<Longrightarrow> handleSimple (l @ CRLF @ r) = (Some l, Num (int (length l) + 2), None)"
  by (simp add: handleSimple_def readLine_first CRLF_length)

lemma handleError_line:
  "\<not> sublist CRLF l \<Longrightarrow> handleError (l @ CRLF @ r) = (None, Num (int (length l) + 2), Some l)"
  by (simp add: handleError_def readLine_first CRLF_length)

lemma VERSION_line: "\<not> sublist CRLF v \<Longrightarrow> \<not> sublist CRLF (''VERSION '' @ v)"
  using sublist_cons_fresh[of CRLF "''VERSION ''" v] by (auto simp: CRLF_def)

lemma handleVersion_line:
  assumes "\<not> sublist CRLF v"
  shows "handleVersion (''VERSION '' @ v @ CRLF @ r) = (Some v, Num (int (length v) + 10), None)"
proof -
  have "indexOf ((''VERSION '' @ v) @ CRLF @ r) CRLF = int (length (''VERSION '' @ v))"
    using assms by (intro CRLF_first VERSION_line)
  then have pos: "indexOf (''VERSION '' @ v @ CRLF @ r) CRLF = 8 + int (length v)" by simp
  show ?thesis
    unfolding handleVersion_def pos by (simp add: substr_take_drop CRLF_length)
qed

lemma handleGet_miss: "handleGet (''END'' @ r) = (None, Num 5, None)"
  by (simp add: handleGet_def indexOf_zero_iff CRLF_length)

lemma END_first:
  assumes "\<not> sublist ''END'' (h @ CRLF @ v)"
  shows "indexOf (h @ CRLF @ v @ CRLF @ ''END'' @ r) ''END'' = int (length h) + int (length v) + 4"
proof -
  have "\<not> sublist ''END'' ((h @ CRLF @ v) @ (CRLF @ butlast ''END''))"
    using assms sublist_snoc_fresh[of "''END''" "h @ CRLF @ v" "CRLF @ butlast ''END''"]
    by (auto simp: CRLF_def)
  then have "indexOf ((h @ CRLF @ v @ CRLF) @ ''END'' @ r) ''END'' = int (length (h @ CRLF @ v @ CRLF))"
    by (intro indexOf_first) simp_all
  then show ?thesis by (simp add: CRLF_length)
qed

lemma handleGet_hit:
  assumes "prefix ''VALUE'' h" and "\<not> sublist CRLF h" and "\<not> sublist ''END'' (h @ CRLF @ v)"
  shows "handleGet (h @ CRLF @ v @ CRLF @ ''END'' @ r)
         = (Some v, Num (int (length h) + int (length v) + 9), None)"
proof -
  let ?b = "h @ CRLF @ v @ CRLF @ ''END'' @ r"
  have notEND: "indexOf ?b ''END'' \<noteq> 0"
    using assms(1) by (auto simp: indexOf_zero_iff prefix_def)
  have isVALUE: "indexOf ?b ''VALUE'' = 0"
    using assms(1) by (auto simp: indexOf_zero_iff prefix_def)
  have e: "indexOf ?b ''END'' = int (length h) + int (length v) + 4"
    using assms(3) by (rule END_first)
  have c: "indexOf ?b CRLF = int (length h)"
    using assms(2) by (rule CRLF_first)
  have len: "int (length h) + int (length v) + 4 - (int (length h) + 2) - 2 = int (length v)"
    by simp
  have v: "substr ?b (int (length h) + 2) (Some (Fin (int (length v)))) = v"
    by (simp add: substr_take_drop nat_add_distrib CRLF_length)
  show ?thesis
    unfolding handleGet_def Let_def e c CRLF_length len v
    using notEND isVALUE e by (simp add: parseInt10_nat)
qed

lemma dispatch_frame:
  "wf_frame f \<Longrightarrow> dispatch (shape f) (encode f @ r) = (frame_value f, Num (int (length (encode f))), None)"
proof (cases f)
  case (Hit h v)
  assume "wf_frame f"
  with Hit have "prefix ''VALUE'' h" "\<not> sublist CRLF h" "\<not> sublist ''END'' (h @ CRLF @ v)"
    by (simp_all add: indexOf_zero_iff indexOf_minus1_iff)
  from handleGet_hit[OF this, of "CRLF @ r"] show ?thesis
    using Hit by (simp add: CRLF_length)
next
  case (Status l)
  assume "wf_frame f"
  with Status show ?thesis
    by (simp add: handleSimple_line indexOf_minus1_iff CRLF_length)
next
  case (VersionReply v)
  assume "wf_frame f"
  with VersionReply handleVersion_line[of v r] show ?thesis
    by (simp add: indexOf_minus1_iff CRLF_length)
next
  case Miss
  with handleGet_miss[of "CRLF @ r"] show ?thesis
    by (simp add: CRLF_length)
qed

lemma encode_has_CRLF: "sublist CRLF (encode f @ r)"
proof -
  obtain a b where "encode f = a @ CRLF @ b"
    by (cases f) (auto intro: that[of _ "[]"] that)
  then show ?thesis by (metis append.assoc sublist_appendI)
qed

lemma body_frame:
  assumes "wf_frame f" and "\<not> scanErrors (encode f @ r) ERRORS"
    and "callbacks this = \<lparr>type = Some (shape f), callback = k\<rparr> # cbs"
    and "buffer this = encode f @ r"
  shows "handleData_body this
         = Some (this\<lparr>buffer := r, callbacks := cbs\<rparr>, [Settled k (Resolved (frame_value f))])"
proof -
  have "getHandleResult this (buffer this) = Some (frame_value f, Num (int (length (encode f))), None)"
    using assms encode_has_CRLF[of f r]
    by (simp add: getHandleResult_def indexOf_minus1_iff dispatch_frame)
  then show ?thesis
    using assms(3,4) by (simp add: handleData_body_def)
qed

lemma handleData_empty: "buffer this = [] \<Longrightarrow> handleData this fired = Some (this, fired)"
  by (subst handleData.simps) simp

lemma handleData_break:
  "handleData_body this = None \<Longrightarrow> handleData this fired = Some (this, fired)"
  by (subst handleData.simps) simp

lemma handleData_step:
  "buffer this \<noteq> [] \<Longrightarrow> handleData_body this = Some (this', fired')
   \<Longrightarrow> handleData this fired = handleData this' (fired @ fired')"
  by (subst handleData.simps) simp

lemma encode_nonempty: "encode f \<noteq> []"
  by (cases f) (simp_all add: CRLF_def)

lemma handleData_frame:
  assumes "wf_frame f" and "\<not> scanErrors (encode f @ r) ERRORS"
    and "callbacks this = \<lparr>type = Some (shape f), callback = k\<rparr> # cbs"
    and "buffer this = encode f @ r"
  shows "handleData this fired
         = handleData (this\<lparr>buffer := r, callbacks := cbs\<rparr>)
             (fired @ [Settled k (Resolved (frame_value f))])"
  using handleData_step[OF _ body_frame[OF assms]] assms(4) encode_nonempty[of f] by simp

section \<open>The data loop\<close>

lemma find_sub_take: "find_sub p s = Some i \<Longrightarrow> p \<noteq> [] \<Longrightarrow> find_sub p (take i s) = None"
proof (induction s arbitrary: i)
  case Nil
  then show ?case by simp
next
  case (Cons c cs)
  show ?case
  proof (cases "prefix p (c # cs)")
    case True
    with Cons.prems show ?thesis by simp
  next
    case False
    with Cons.prems obtain i' where i': "i = Suc i'" "find_sub p cs = Some i'"
      by auto
    have "prefix (c # take i' cs) (c # cs)" by (simp add: take_is_prefix)
    with False have "\<not> prefix p (c # take i' cs)"
      using prefix_order.order_trans by blast
    with Cons.IH[OF i'(2) Cons.prems(2)] show ?thesis by (simp add: i')
  qed
qed

lemma find_sub_split:
  "find_sub p s = Some i \<Longrightarrow> s = take i s @ p @ drop (i + length p) s"
proof -
  assume "find_sub p s = Some i"
  then have "prefix p (drop i s)" by (simp add: find_sub_Some_prefix)
  then obtain t where t: "drop i s = p @ t" by (auto simp: prefix_def)
  then have "drop (i + length p) s = t"
    by (metis add.commute append_eq_conv_conj drop_drop)
  with t show ?thesis by (metis append_take_drop_id)
qed

lemma readLine_terminated:
  assumes "indexOf s CRLF \<noteq> - 1"
  shows "\<exists>r. s = readLine s @ CRLF @ r" and "indexOf (readLine s) CRLF = - 1"
proof -
  from assms obtain i where i: "find_sub CRLF s = Some i"
    by (auto simp: indexOf_def split: option.splits)
  then have rl: "readLine s = take i s"
    by (simp add: readLine_def indexOf_def substr_take_drop)
  from find_sub_split[OF i] show "\<exists>r. s = readLine s @ CRLF @ r"
    unfolding rl by blast
  from find_sub_take[OF i] show "indexOf (readLine s) CRLF = - 1"
    unfolding rl by (simp add: indexOf_def CRLF_def)
qed

lemma substring_length: "length (substring s p) \<le> length s"
  by (cases p) simp_all

lemma body_decreases:
  assumes "handleData_body this = Some (this', fired')"
  shows "length (buffer this') + length (callbacks this')
         < length (buffer this) + length (callbacks this)"
proof -
  from assms obtain v pos e where
    r: "getHandleResult this (buffer this) = Some (v, pos, e)"
    and this': "this' = this\<lparr>buffer := substring (buffer this) pos, callbacks := tl (callbacks this)\<rparr>"
    by (auto simp: handleData_body_def split: option.splits if_splits)
  from r have crlf: "indexOf (buffer this) CRLF \<noteq> - 1"
    by (auto simp: getHandleResult_def split: if_splits)
  show ?thesis
  proof (cases "scanErrors (buffer this) ERRORS")
    case True
    with r crlf have pos: "pos = Num (int (length (readLine (buffer this))) + 2)"
      by (auto simp: getHandleResult_def handleError_def CRLF_length Let_def)
    obtain rest where "buffer this = readLine (buffer this) @ CRLF @ rest"
      using readLine_terminated(1)[OF crlf] by blast
    then have "length (buffer this) = length (readLine (buffer this)) + 2 + length rest"
      by (metis CRLF_length(1) length_append add.assoc)
    then have "length (substring (buffer this) pos) < length (buffer this)"
      unfolding pos by simp
    then show ?thesis by (simp add: this')
  next
    case False
    with r crlf have "callbacks this \<noteq> []"
      by (auto simp: getHandleResult_def split: list.splits)
    then have "length (tl (callbacks this)) < length (callbacks this)" by simp
    moreover note substring_length[of "buffer this" pos]
    ultimately show ?thesis by (simp add: this')
  qed
qed

lemma substring_suffix: "suffix (substring s p) s"
  by (cases p) (simp_all add: suffix_drop)

lemma handleData_suffix:
  "handleData this fired = Some (this', fired') \<Longrightarrow> suffix (buffer this') (buffer this)"
proof (induction "length (buffer this) + length (callbacks this)"
      arbitrary: this fired rule: less_induct)
  case less
  show ?case
  proof (cases "buffer this = [] \<or> handleData_body this = None")
    case True
    with less.prems have "this' = this"
      by (auto simp: handleData_empty handleData_break)
    then show ?thesis by simp
  next
    case False
    then obtain s1 f1 where b: "handleData_body this = Some (s1, f1)" and ne: "buffer this \<noteq> []"
      by auto
    from less.prems have "handleData s1 (fired @ f1) = Some (this', fired')"
      unfolding handleData_step[OF ne b] .
    from less.hyps[OF body_decreases[OF b] this]
    have "suffix (buffer this') (buffer s1)" .
    moreover from b have "suffix (buffer s1) (buffer this)"
      by (auto simp: handleData_body_def substring_suffix split: option.splits if_splits)
    ultimately show ?thesis using suffix_order.order_trans by blast
  qed
qed


section \<open>Claims about single replies and transport events\<close>

text \<open>
  C6, as stated, fails in its byte count: the reply \<^verbatim>\<open>VALUE k 0 5\r\nhello\r\nEND\r\n\<close> is
  25 bytes long, and \<^verbatim>\<open>handleGet\<close> does not report 26 consumed bytes for it.
\<close>

theorem get_reply_consumed_counterexample:
  "fst (snd (handleGet (''VALUE k 0 5'' @ CRLF @ ''hello'' @ CRLF @ ''END'' @ CRLF))) \<noteq> Num 26"
  by code_simp

text \<open>
  C6, amended: for a pending \<^verbatim>\<open>get\<close>, the reply \<^verbatim>\<open>VALUE k 0 5\r\nhello\r\nEND\r\n\<close> resolves the
  request with \<^verbatim>\<open>hello\<close> and consumes exactly 25 bytes, the whole reply; a reply that begins
  with \<^verbatim>\<open>END\<close> gives \<^verbatim>\<open>null\<close> and consumes 3 bytes plus the terminator, and the reply
  \<^verbatim>\<open>END\r\n\<close> resolves the request with \<^verbatim>\<open>null\<close>.
\<close>

theorem get_reply_examples:
  "handleGet (''VALUE k 0 5'' @ CRLF @ ''hello'' @ CRLF @ ''END'' @ CRLF)
     = (Some ''hello'', Num 25, None)
   \<and> length (''VALUE k 0 5'' @ CRLF @ ''hello'' @ CRLF @ ''END'' @ CRLF) = 25
   \<and> on_data (this\<lparr>buffer := [], callbacks := [\<lparr>type = Some Get, callback = k\<rparr>]\<rparr>)
        (''VALUE k 0 5'' @ CRLF @ ''hello'' @ CRLF @ ''END'' @ CRLF)
     = Some (this\<lparr>buffer := [], callbacks := []\<rparr>, [Settled k (Resolved (Some ''hello''))])
   \<and> handleGet (''END'' @ rest) = (None, Num (3 + CRLF_LENGTH), None)
   \<and> on_data (this\<lparr>buffer := [], callbacks := [\<lparr>type = Some Get, callback = k\<rparr>]\<rparr>)
        (''END'' @ CRLF)
     = Some (this\<lparr>buffer := [], callbacks := []\<rparr>, [Settled k (Resolved None)])"
proof -
  let ?hit = "Hit ''VALUE k 0 5'' ''hello''"
  let ?s = "this\<lparr>buffer := [], callbacks := [\<lparr>type = Some Get, callback = k\<rparr>]\<rparr>"
  have wf: "wf_frame ?hit" by code_simp
  have ne: "\<not> scanErrors (encode ?hit @ []) ERRORS" by code_simp
  have ne': "\<not> scanErrors (encode Miss @ []) ERRORS" by code_simp
  have 1: "handleGet (''VALUE k 0 5'' @ CRLF @ ''hello'' @ CRLF @ ''END'' @ CRLF)
           = (Some ''hello'', Num 25, None)"
    by code_simp
  have 2: "length (''VALUE k 0 5'' @ CRLF @ ''hello'' @ CRLF @ ''END'' @ CRLF) = 25"
    by (simp add: CRLF_def)
  have 3: "on_data ?s (encode ?hit)
           = Some (this\<lparr>buffer := [], callbacks := []\<rparr>, [Settled k (Resolved (Some ''hello''))])"
    unfolding on_data_def
    by (subst handleData_frame[OF wf ne, where k = k and cbs = "[]"])
       (simp_all add: handleData_empty)
  have 4: "handleGet (''END'' @ rest) = (None, Num (3 + CRLF_LENGTH), None)"
    using handleGet_miss[of rest] by (simp add: CRLF_length)
  have 5: "on_data ?s (encode Miss)
           = Some (this\<lparr>buffer := [], callbacks := []\<rparr>, [Settled k (Resolved None)])"
    unfolding on_data_def
    by (subst handleData_frame[of Miss "[]", OF _ ne', where k = k and cbs = "[]"])
       (simp_all add: handleData_empty)
  from 1 2 3 4 5 show ?thesis by simp
qed

text \<open>
  C7: on the \<^verbatim>\<open>end\<close> event every queued request is rejected with \<^verbatim>\<open>CONNECTION_CLOSED\<close>,
  oldest first, none is left in the queue or skipped, and the handle is released; with
  three requests outstanding the three rejections come in the order of the queue.
\<close>

theorem end_of_stream_fails_all:
  "on_end this
     = (this\<lparr>callbacks := [], handle := None\<rparr>,
        map (\<lambda>cb. Settled (callback cb) (Rejected ''CONNECTION_CLOSED'')) (callbacks this))
   \<and> snd (on_end (this\<lparr>callbacks := [\<lparr>type = t1, callback = k1\<rparr>,
          \<lparr>type = t2, callback = k2\<rparr>, \<lparr>type = t3, callback = k3\<rparr>]\<rparr>))
     = [Settled k1 (Rejected ''CONNECTION_CLOSED''), Settled k2 (Rejected ''CONNECTION_CLOSED''),
        Settled k3 (Rejected ''CONNECTION_CLOSED'')]"
proof -
  have "drain ''CONNECTION_CLOSED'' cbs
        = map (\<lambda>cb. Settled (callback cb) (Rejected ''CONNECTION_CLOSED'')) cbs" for cbs
    by (induction cbs) simp_all
  then show ?thesis by (simp add: on_end_def)
qed

text \<open>
  C8: a \<^verbatim>\<open>timeout\<close> event rejects exactly the oldest queued request with \<^verbatim>\<open>TIMEOUT\<close>, leaves
  every other request in the queue, emits \<^verbatim>\<open>timeout\<close>, and keeps the handle.
\<close>

theorem timeout_fails_oldest_only:
  "on_timeout (this\<lparr>callbacks := cb # rest\<rparr>)
     = (this\<lparr>callbacks := rest\<rparr>,
        [Settled (callback cb) (Rejected ''TIMEOUT''), Emitted ''timeout''])
   \<and> handle (fst (on_timeout this)) = handle this"
  by (simp add: on_timeout_def split: list.splits)

text \<open>
  C9 fails on the code: \<^verbatim>\<open>init\<close> stores the host name in \<^verbatim>\<open>this.hostname\<close>, and \<^verbatim>\<open>connect\<close>
  passes \<^verbatim>\<open>this.host\<close>, which nothing assigns, to \<^verbatim>\<open>net.createConnection\<close>. A connection
  constructed for \<^verbatim>\<open>10.0.0.5\<close> opens its transport with the port 11211 and an undefined
  host, and so does one constructed without arguments, whose \<^verbatim>\<open>hostname\<close> is \<^verbatim>\<open>127.0.0.1\<close>.
  The port defaults to 11211, and a second \<^verbatim>\<open>connect\<close> opens nothing, as the claim says.
\<close>

theorem connect_ignores_hostname:
  "hostname (init (Some 11211) (Some ''10.0.0.5'')) = ''10.0.0.5''
   \<and> snd (connect (init (Some 11211) (Some ''10.0.0.5''))) = [CreateConnection 11211 None]
   \<and> port (init None None) = 11211 \<and> hostname (init None None) = ''127.0.0.1''
   \<and> snd (connect (init None None)) = [CreateConnection 11211 None]
   \<and> connect (fst (connect (init (Some 11211) (Some ''10.0.0.5''))))
     = (fst (connect (init (Some 11211) (Some ''10.0.0.5''))), [])"
  by (simp add: init_def connect_def)

section \<open>Claims about the frame parser\<close>



text \<open>
  C5: a buffer without a terminator gives no result, and a result whose consumed count
  exceeds the length of the buffer is dropped; in both cases \<^verbatim>\<open>handleData\<close> leaves the
  connection as it is and fires nothing. Whatever \<^verbatim>\<open>handleData\<close> consumes, the buffer it
  leaves is a suffix of the buffer it found.
\<close>

theorem need_more_data_leaves_buffer:
  "(indexOf (buffer this) CRLF = - 1 \<longrightarrow>
      getHandleResult this (buffer this) = None \<and> handleData this fired = Some (this, fired))
   \<and> (\<forall>value pos error.
        getHandleResult this (buffer this) = Some (value, pos, error)
        \<and> gt_num pos (int (length (buffer this))) \<longrightarrow>
        handleData_body this = None \<and> handleData this fired = Some (this, fired))
   \<and> (\<forall>this' fired'. handleData this fired = Some (this', fired') \<longrightarrow>
        suffix (buffer this') (buffer this))"
proof (intro conjI impI allI)
  assume "indexOf (buffer this) CRLF = - 1"
  then show none: "getHandleResult this (buffer this) = None"
    by (simp add: getHandleResult_def)
  then show "handleData this fired = Some (this, fired)"
    by (simp add: handleData_break handleData_body_def)
next
  fix "value" pos error
  assume "getHandleResult this (buffer this) = Some (value, pos, error)
          \<and> gt_num pos (int (length (buffer this)))"
  then show body: "handleData_body this = None"
    by (simp add: handleData_body_def)
  then show "handleData this fired = Some (this, fired)"
    by (rule handleData_break)
next
  fix this' fired'
  assume "handleData this fired = Some (this', fired')"
  then show "suffix (buffer this') (buffer this)" by (rule handleData_suffix)
qed

text \<open>
  The theorem of C5 at a buffer with a partial line, and at a \<^verbatim>\<open>get\<close> reply cut inside its
  payload, whose declared length puts the end of the reply at 25, beyond the 16 bytes held.
\<close>

theorem need_more_data_leaves_buffer_witness:
  "indexOf (buffer ((init None None)\<lparr>buffer := ''STOR'',
        callbacks := [\<lparr>type = Some Simple, callback = 1\<rparr>]\<rparr>)) CRLF = - 1
   \<and> handleData ((init None None)\<lparr>buffer := ''STOR'',
        callbacks := [\<lparr>type = Some Simple, callback = 1\<rparr>]\<rparr>) []
     = Some ((init None None)\<lparr>buffer := ''STOR'',
        callbacks := [\<lparr>type = Some Simple, callback = 1\<rparr>]\<rparr>, [])
   \<and> getHandleResult ((init None None)\<lparr>buffer := ''VALUE k 0 5'' @ CRLF @ ''hel'',
        callbacks := [\<lparr>type = Some Get, callback = 1\<rparr>]\<rparr>) (''VALUE k 0 5'' @ CRLF @ ''hel'')
     = Some (Some ''hel'', Num 25, None)
   \<and> gt_num (Num 25) (int (length (''VALUE k 0 5'' @ CRLF @ ''hel'')))
   \<and> handleData ((init None None)\<lparr>buffer := ''VALUE k 0 5'' @ CRLF @ ''hel'',
        callbacks := [\<lparr>type = Some Get, callback = 1\<rparr>]\<rparr>) []
     = Some ((init None None)\<lparr>buffer := ''VALUE k 0 5'' @ CRLF @ ''hel'',
        callbacks := [\<lparr>type = Some Get, callback = 1\<rparr>]\<rparr>, [])"
proof -
  let ?s1 = "(init None None)\<lparr>buffer := ''STOR'',
        callbacks := [\<lparr>type = Some Simple, callback = 1\<rparr>]\<rparr>"
  let ?s2 = "(init None None)\<lparr>buffer := ''VALUE k 0 5'' @ CRLF @ ''hel'',
        callbacks := [\<lparr>type = Some Get, callback = 1\<rparr>]\<rparr>"
  have h1: "indexOf (buffer ?s1) CRLF = - 1" by code_simp
  have b2: "buffer ?s2 = ''VALUE k 0 5'' @ CRLF @ ''hel''" by simp
  have h2: "getHandleResult ?s2 (buffer ?s2) = Some (Some ''hel'', Num 25, None)" by code_simp
  have h3: "gt_num (Num 25) (int (length (buffer ?s2)))" by code_simp
  from need_more_data_leaves_buffer[of ?s1 "[]"] h1 have 1: "handleData ?s1 [] = Some (?s1, [])" by blast
  from need_more_data_leaves_buffer[of ?s2 "[]"] h2 h3 have 2: "handleData ?s2 [] = Some (?s2, [])" by blast
  from h1 1 h2 h3 2 show ?thesis unfolding b2 by blast
qed

text \<open>
  C10, as stated, fails in its reason: a pass of the loop can consume no byte and still
  not exit. With two \<^verbatim>\<open>get\<close> requests pending and the buffer \<^verbatim>\<open>STORED\r\n\<close>, whose first
  line has no fourth field, the consumed count is \<open>NaN\<close>; the pass fires the first
  callback, shifts the queue, keeps the whole buffer, and the loop goes on.
\<close>

theorem handleData_zero_bytes_counterexample:
  "handleData_body ((init None None)\<lparr>buffer := ''STORED'' @ CRLF,
        callbacks := [\<lparr>type = Some Get, callback = 1\<rparr>, \<lparr>type = Some Get, callback = 2\<rparr>]\<rparr>)
     = Some ((init None None)\<lparr>buffer := ''STORED'' @ CRLF,
               callbacks := [\<lparr>type = Some Get, callback = 2\<rparr>]\<rparr>,
             [Settled 1 (Resolved (Some []))])"
  by code_simp

text \<open>
  C10, amended: for every buffer and every queue the loop of \<^verbatim>\<open>handleData\<close> returns, also
  when the header of a \<^verbatim>\<open>get\<close> reply has no numeric length. A pass that does not exit
  either consumes at least one byte or removes the head of the queue while the buffer
  does not grow, so the length of the buffer plus the length of the queue decreases.
\<close>

theorem handleData_terminates:
  "(\<exists>r. handleData this fired = Some r)
   \<and> (\<forall>this' fired'. handleData_body this = Some (this', fired') \<longrightarrow>
        length (buffer this') + length (callbacks this')
        < length (buffer this) + length (callbacks this))"
proof
  show "\<exists>r. handleData this fired = Some r"
  proof (induction "length (buffer this) + length (callbacks this)"
      arbitrary: this fired rule: less_induct)
    case less
    show ?case
    proof (cases "handleData_body this")
      case None
      then show ?thesis by (simp add: handleData_break)
    next
      case (Some a)
      obtain this' fired' where a: "a = (this', fired')" by (cases a)
      show ?thesis
      proof (cases "buffer this = []")
        case True
        then show ?thesis by (simp add: handleData_empty)
      next
        case False
        from less[OF body_decreases[OF Some[unfolded a]]]
        show ?thesis
          unfolding handleData_step[OF False Some[unfolded a]] .
      qed
    qed
  qed
  show "\<forall>this' fired'. handleData_body this = Some (this', fired') \<longrightarrow>
        length (buffer this') + length (callbacks this')
        < length (buffer this) + length (callbacks this)"
    using body_decreases by blast
qed

text \<open>The theorem of C10 at the state of the counterexample.\<close>

theorem handleData_terminates_witness:
  "handleData_body ((init None None)\<lparr>buffer := ''STORED'' @ CRLF,
        callbacks := [\<lparr>type = Some Get, callback = 1\<rparr>, \<lparr>type = Some Get, callback = 2\<rparr>]\<rparr>)
     = Some ((init None None)\<lparr>buffer := ''STORED'' @ CRLF,
               callbacks := [\<lparr>type = Some Get, callback = 2\<rparr>]\<rparr>,
             [Settled 1 (Resolved (Some []))])
   \<and> length (''STORED'' @ CRLF) + length [\<lparr>type = Some Get, callback = 2::nat\<rparr>]
       < length (''STORED'' @ CRLF)
         + length [\<lparr>type = Some Get, callback = 1::nat\<rparr>, \<lparr>type = Some Get, callback = 2\<rparr>]
   \<and> (\<exists>r. handleData ((init None None)\<lparr>buffer := ''STORED'' @ CRLF,
        callbacks := [\<lparr>type = Some Get, callback = 1\<rparr>, \<lparr>type = Some Get, callback = 2\<rparr>]\<rparr>) []
          = Some r)"
proof -
  let ?s = "(init None None)\<lparr>buffer := ''STORED'' @ CRLF,
        callbacks := [\<lparr>type = Some Get, callback = 1\<rparr>, \<lparr>type = Some Get, callback = 2\<rparr>]\<rparr>"
  let ?s' = "(init None None)\<lparr>buffer := ''STORED'' @ CRLF,
               callbacks := [\<lparr>type = Some Get, callback = 2\<rparr>]\<rparr>"
  have h: "handleData_body ?s = Some (?s', [Settled 1 (Resolved (Some []))])" by code_simp
  from handleData_terminates[of ?s "[]"] h
  have "length (buffer ?s') + length (callbacks ?s') < length (buffer ?s) + length (callbacks ?s)"
    by blast
  then have "length (''STORED'' @ CRLF) + length [\<lparr>type = Some Get, callback = 2::nat\<rparr>]
       < length (''STORED'' @ CRLF)
         + length [\<lparr>type = Some Get, callback = 1::nat\<rparr>, \<lparr>type = Some Get, callback = 2\<rparr>]"
    by simp
  with h handleData_terminates[of ?s "[]"] show ?thesis by blast
qed




section \<open>Replies that have not arrived in full\<close>










section \<open>Streams of replies\<close>













section \<open>Claims about pipelined replies and chunks\<close>







end
